theory Spec2Isabelle
  imports Main "HOL-Library.Word"
begin

unbundle bit_operations_syntax

section \<open>The locale subsystem of libc/bionic/locale.cpp\<close>

text \<open>
  A shallow embedding of \<^verbatim>\<open>libc/bionic/locale.cpp\<close>. The file has one process-wide
  flag (\<^verbatim>\<open>__bionic_current_locale_is_utf8\<close>), heap objects of type \<^verbatim>\<open>__locale_t\<close>
  made by \<^verbatim>\<open>new\<close>, one thread-local slot per thread (\<^verbatim>\<open>__get_bionic_tls().locale\<close>),
  the thread-local \<^verbatim>\<open>errno\<close>, and the lazily filled \<^verbatim>\<open>lconv\<close> table. Each C function
  becomes a HOL function that takes the state and returns the result with the new state.
  The leading underscores of C names are dropped, as an Isabelle name starts with a letter.
\<close>

subsection \<open>Constants of the headers\<close>

text \<open>
  The macros \<^verbatim>\<open>LC_CTYPE\<close>, \<^verbatim>\<open>LC_IDENTIFICATION\<close>, \<^verbatim>\<open>LC_ALL_MASK\<close> (locale.h),
  \<^verbatim>\<open>EINVAL\<close>, \<^verbatim>\<open>ENOENT\<close> (errno.h) and \<^verbatim>\<open>CHAR_MAX\<close> (limits.h) are defined outside
  locale.cpp, and \<^verbatim>\<open>CHAR_MAX\<close> differs between targets. The functions below take them as a
  parameter, so every theorem holds for all values of these macros.
\<close>

record headers =
  LC_CTYPE :: int
  LC_IDENTIFICATION :: int
  LC_ALL_MASK :: "32 word"
  EINVAL :: int
  ENOENT :: int
  CHAR_MAX :: int

text \<open>
  One concrete choice, for evaluating the functions at concrete inputs: category numbers
  0 to 12, a mask with one bit for each category except \<^verbatim>\<open>LC_ALL\<close> (number 6), the Linux
  error numbers and a signed \<^verbatim>\<open>char\<close>.
\<close>

definition bionic_headers :: headers where
  "bionic_headers =
     \<lparr>LC_CTYPE = 0, LC_IDENTIFICATION = 12, LC_ALL_MASK = 0x1FBF,
      EINVAL = 22, ENOENT = 2, CHAR_MAX = 127\<rparr>"

subsection \<open>Data\<close>

text \<open>
  A \<^verbatim>\<open>const char*\<close> argument is either the null pointer (\<open>None\<close>) or points to a C
  string, modelled by the list of its bytes before the terminating NUL. Where the code
  reads through such a pointer after testing it against \<^verbatim>\<open>NULL\<close>, the model reads
  \<open>the locale_name\<close> under the same test.
\<close>

type_synonym tid = nat

text \<open>\<^verbatim>\<open>struct __locale_t { size_t mb_cur_max; ... }\<close>\<close>

record locale_obj =
  mb_cur_max :: nat

text \<open>
  A value of type \<^verbatim>\<open>locale_t\<close> (a pointer to \<^verbatim>\<open>__locale_t\<close>): the null pointer, the
  distinguished value \<^verbatim>\<open>LC_GLOBAL_LOCALE\<close>, or the address of an object. Addresses are
  indices into the list of objects allocated so far.
\<close>

datatype locale_t = NULL | LC_GLOBAL_LOCALE | Ptr nat

text \<open>\<^verbatim>\<open>struct lconv\<close>: the ten \<^verbatim>\<open>char*\<close> fields and the fourteen \<^verbatim>\<open>char\<close> fields.\<close>

record lconv =
  decimal_point :: "string option"
  thousands_sep :: "string option"
  grouping :: "string option"
  int_curr_symbol :: "string option"
  currency_symbol :: "string option"
  mon_decimal_point :: "string option"
  mon_thousands_sep :: "string option"
  mon_grouping :: "string option"
  positive_sign :: "string option"
  negative_sign :: "string option"
  int_frac_digits :: int
  frac_digits :: int
  p_cs_precedes :: int
  p_sep_by_space :: int
  n_cs_precedes :: int
  n_sep_by_space :: int
  p_sign_posn :: int
  n_sign_posn :: int
  int_p_cs_precedes :: int
  int_p_sep_by_space :: int
  int_n_cs_precedes :: int
  int_n_sep_by_space :: int
  int_p_sign_posn :: int
  int_n_sign_posn :: int

text \<open>
  The state the file reads and writes. \<open>errno\<close> and \<open>tls_locale\<close> (the field
  \<^verbatim>\<open>locale\<close> of \<^verbatim>\<open>__get_bionic_tls()\<close>) are thread-local: one value per thread. The
  calling thread is an explicit argument of the functions that touch them. Calls are
  atomic steps on this state; data races between threads are outside the model.
\<close>

record state =
  bionic_current_locale_is_utf8 :: bool
  heap :: "locale_obj list"
  tls_locale :: "tid \<Rightarrow> locale_t"
  errno :: "tid \<Rightarrow> int"
  g_locale_once :: bool
  g_locale :: lconv

text \<open>
  The state at process start: the flag is initialised to \<^verbatim>\<open>true\<close>, nothing is allocated,
  and the zero-initialised statics and thread-local slots hold null pointers and zeros.
\<close>

definition zero_lconv :: lconv where
  "zero_lconv =
     \<lparr>decimal_point = None, thousands_sep = None, grouping = None,
      int_curr_symbol = None, currency_symbol = None, mon_decimal_point = None,
      mon_thousands_sep = None, mon_grouping = None, positive_sign = None,
      negative_sign = None,
      int_frac_digits = 0, frac_digits = 0, p_cs_precedes = 0, p_sep_by_space = 0,
      n_cs_precedes = 0, n_sep_by_space = 0, p_sign_posn = 0, n_sign_posn = 0,
      int_p_cs_precedes = 0, int_p_sep_by_space = 0, int_n_cs_precedes = 0,
      int_n_sep_by_space = 0, int_p_sign_posn = 0, int_n_sign_posn = 0\<rparr>"

definition init_state :: state where
  "init_state =
     \<lparr>bionic_current_locale_is_utf8 = True, heap = [],
      tls_locale = (\<lambda>_. NULL), errno = (\<lambda>_. 0),
      g_locale_once = False, g_locale = zero_lconv\<rparr>"

subsection \<open>The C library's string functions\<close>

text \<open>
  Modelled from the spec: \<^verbatim>\<open>strcmp\<close> is the C library's, its code is not part of
  locale.cpp. The spec asks for a name that is "exactly one of" the supported strings, so
  the result is zero for equal strings only. Two strings are compared byte by byte, as
  unsigned values; the result is negative, zero or positive, and a proper prefix is the
  smaller string.
\<close>

fun strcmp :: "string \<Rightarrow> string \<Rightarrow> int" where
  "strcmp [] [] = 0"
| "strcmp [] (y # ys) = - 1"
| "strcmp (x # xs) [] = 1"
| "strcmp (x # xs) (y # ys) =
     (if x = y then strcmp xs ys
      else if (of_char x :: nat) < of_char y then - 1 else 1)"

text \<open>
  Modelled from the spec: \<^verbatim>\<open>strstr\<close> is the C library's, its code is not part of
  locale.cpp. The spec asks whether the name "contains the substring anywhere":
  \<^verbatim>\<open>strstr(haystack, needle)\<close> scans the haystack from the left and returns a pointer to
  the first occurrence of the needle, here its offset, or the null pointer when there is
  none.
\<close>

fun strstr :: "string \<Rightarrow> string \<Rightarrow> nat option" where
  "strstr [] needle = (if needle = [] then Some 0 else None)"
| "strstr (c # cs) needle =
     (if take (length needle) (c # cs) = needle then Some 0
      else map_option Suc (strstr cs needle))"

subsection \<open>The locale name checks\<close>

definition is_supported_locale :: "string \<Rightarrow> bool" where
  "is_supported_locale locale_name =
     (strcmp locale_name '''' = 0 \<or>
      strcmp locale_name ''C'' = 0 \<or>
      strcmp locale_name ''C.UTF-8'' = 0 \<or>
      strcmp locale_name ''en_US.UTF-8'' = 0 \<or>
      strcmp locale_name ''POSIX'' = 0)"

definition is_utf8_locale :: "string \<Rightarrow> bool" where
  "is_utf8_locale locale_name =
     (locale_name = [] \<or> strstr locale_name ''UTF-8'' \<noteq> None)"

subsection \<open>Locale objects\<close>

text \<open>Reading through a pointer; \<open>None\<close> is the fault of an invalid pointer.\<close>

definition deref :: "state \<Rightarrow> locale_t \<Rightarrow> locale_obj option" where
  "deref s l =
     (case l of
        Ptr a \<Rightarrow> if a < length (heap s) then Some (heap s ! a) else None
      | _ \<Rightarrow> None)"

text \<open>
  \<^verbatim>\<open>new __locale_t(...)\<close>: the object is stored at a fresh address. The allocation
  itself is taken to succeed.
\<close>

definition new_locale_obj :: "state \<Rightarrow> locale_obj \<Rightarrow> locale_t \<times> state" where
  "new_locale_obj s obj = (Ptr (length (heap s)), s\<lparr>heap := heap s @ [obj]\<rparr>)"

text \<open>The two constructors of \<^verbatim>\<open>__locale_t\<close>.\<close>

definition locale_of_width :: "nat \<Rightarrow> locale_obj" where
  "locale_of_width w = \<lparr>mb_cur_max = w\<rparr>"

definition locale_of_other :: "state \<Rightarrow> locale_t \<Rightarrow> locale_obj option" where
  "locale_of_other s other =
     (if other = LC_GLOBAL_LOCALE
      then Some \<lparr>mb_cur_max = (if bionic_current_locale_is_utf8 s then 4 else 1)\<rparr>
      else map_option (\<lambda>obj. \<lparr>mb_cur_max = mb_cur_max obj\<rparr>) (deref s other))"

subsection \<open>The thread's locale\<close>

definition uselocale :: "state \<Rightarrow> tid \<Rightarrow> locale_t \<Rightarrow> locale_t \<times> state" where
  "uselocale s t new_locale =
     (let old_locale = tls_locale s t;
          old_locale = (if old_locale = NULL then LC_GLOBAL_LOCALE else old_locale);
          s = (if new_locale \<noteq> NULL
               then s\<lparr>tls_locale := (tls_locale s)(t := new_locale)\<rparr> else s)
      in (old_locale, s))"

definition ctype_get_mb_cur_max :: "state \<Rightarrow> tid \<Rightarrow> (nat \<times> state) option" where
  "ctype_get_mb_cur_max s t =
     (case uselocale s t NULL of
        (l, s) \<Rightarrow>
          if l = LC_GLOBAL_LOCALE
          then Some (if bionic_current_locale_is_utf8 s then 4 else 1, s)
          else map_option (\<lambda>obj. (mb_cur_max obj, s)) (deref s l))"

subsection \<open>The format table\<close>

definition locale_init :: "headers \<Rightarrow> state \<Rightarrow> state" where
  "locale_init h s =
     (let not_available = Some '''' in
      s\<lparr>g_locale := (g_locale s)
          \<lparr>decimal_point := Some ''.'',
           thousands_sep := not_available,
           grouping := not_available,
           int_curr_symbol := not_available,
           currency_symbol := not_available,
           mon_decimal_point := not_available,
           mon_thousands_sep := not_available,
           mon_grouping := not_available,
           positive_sign := not_available,
           negative_sign := not_available,
           int_frac_digits := CHAR_MAX h,
           frac_digits := CHAR_MAX h,
           p_cs_precedes := CHAR_MAX h,
           p_sep_by_space := CHAR_MAX h,
           n_cs_precedes := CHAR_MAX h,
           n_sep_by_space := CHAR_MAX h,
           p_sign_posn := CHAR_MAX h,
           n_sign_posn := CHAR_MAX h,
           int_p_cs_precedes := CHAR_MAX h,
           int_p_sep_by_space := CHAR_MAX h,
           int_n_cs_precedes := CHAR_MAX h,
           int_n_sep_by_space := CHAR_MAX h,
           int_p_sign_posn := CHAR_MAX h,
           int_n_sign_posn := CHAR_MAX h\<rparr>\<rparr>)"

text \<open>
  Modelled from the spec: \<^verbatim>\<open>pthread_once\<close> is not part of locale.cpp. The spec has the
  table "initialized exactly once via a one-time-initialization guard":
  \<^verbatim>\<open>pthread_once(&g_locale_once, __locale_init)\<close> runs the routine when the guard is
  still \<^verbatim>\<open>PTHREAD_ONCE_INIT\<close> (\<open>False\<close>) and sets the guard.
\<close>

definition pthread_once_locale_init :: "headers \<Rightarrow> state \<Rightarrow> state" where
  "pthread_once_locale_init h s =
     (if g_locale_once s then s else (locale_init h s)\<lparr>g_locale_once := True\<rparr>)"

text \<open>\<^verbatim>\<open>localeconv\<close> returns the address of \<^verbatim>\<open>g_locale\<close>, here the record found there.\<close>

definition localeconv :: "headers \<Rightarrow> state \<Rightarrow> lconv \<times> state" where
  "localeconv h s = (let s = pthread_once_locale_init h s in (g_locale s, s))"

subsection \<open>Creating and copying locales\<close>

definition duplocale :: "state \<Rightarrow> locale_t \<Rightarrow> (locale_t \<times> state) option" where
  "duplocale s l = map_option (new_locale_obj s) (locale_of_other s l)"

definition newlocale ::
  "headers \<Rightarrow> state \<Rightarrow> tid \<Rightarrow> 32 word \<Rightarrow> string option \<Rightarrow> locale_t \<Rightarrow> locale_t \<times> state" where
  "newlocale h s t category_mask locale_name base =
     (if category_mask AND NOT (LC_ALL_MASK h) \<noteq> 0 \<or> locale_name = None
      then (NULL, s\<lparr>errno := (errno s)(t := EINVAL h)\<rparr>)
      else if \<not> is_supported_locale (the locale_name)
      then (NULL, s\<lparr>errno := (errno s)(t := ENOENT h)\<rparr>)
      else new_locale_obj s
             (locale_of_width (if is_utf8_locale (the locale_name) then 4 else 1)))"

subsection \<open>The default locale\<close>

definition setlocale ::
  "headers \<Rightarrow> state \<Rightarrow> tid \<Rightarrow> int \<Rightarrow> string option \<Rightarrow> string option \<times> state" where
  "setlocale h s t category locale_name =
     (if category < LC_CTYPE h \<or> category > LC_IDENTIFICATION h
      then (None, s\<lparr>errno := (errno s)(t := EINVAL h)\<rparr>)
      else if locale_name \<noteq> None \<and> \<not> is_supported_locale (the locale_name)
      then (None, s\<lparr>errno := (errno s)(t := ENOENT h)\<rparr>)
      else
        let s = (if locale_name \<noteq> None
                 then s\<lparr>bionic_current_locale_is_utf8 := is_utf8_locale (the locale_name)\<rparr>
                 else s)
        in (Some (if bionic_current_locale_is_utf8 s then ''C.UTF-8'' else ''C''), s))"

subsection \<open>Sequences of calls\<close>

text \<open>
  A handle that a caller can hold: \<^verbatim>\<open>LC_GLOBAL_LOCALE\<close> or a pointer that
  \<^verbatim>\<open>newlocale\<close> or \<^verbatim>\<open>duplocale\<close> has returned.
\<close>

definition is_handle :: "state \<Rightarrow> locale_t \<Rightarrow> bool" where
  "is_handle s l =
     (case l of NULL \<Rightarrow> False | LC_GLOBAL_LOCALE \<Rightarrow> True | Ptr a \<Rightarrow> a < length (heap s))"

text \<open>
  The calls of a client, each by some thread. \<open>api_step\<close> is \<open>None\<close> for a call outside
  the interface's contract: \<^verbatim>\<open>duplocale\<close> of something that is not a handle, and
  \<^verbatim>\<open>uselocale\<close> of something that is neither a handle nor \<^verbatim>\<open>NULL\<close>.
\<close>

datatype api_call =
    Setlocale tid int "string option"
  | Newlocale tid "32 word" "string option" locale_t
  | Duplocale locale_t
  | Uselocale tid locale_t
  | Localeconv

fun api_step :: "headers \<Rightarrow> state \<Rightarrow> api_call \<Rightarrow> state option" where
  "api_step h s (Setlocale t category locale_name) =
     Some (snd (setlocale h s t category locale_name))"
| "api_step h s (Newlocale t category_mask locale_name base) =
     Some (snd (newlocale h s t category_mask locale_name base))"
| "api_step h s (Duplocale l) =
     (if is_handle s l then map_option snd (duplocale s l) else None)"
| "api_step h s (Uselocale t l) =
     (if l = NULL \<or> is_handle s l then Some (snd (uselocale s t l)) else None)"
| "api_step h s Localeconv = Some (snd (localeconv h s))"

fun api_run :: "headers \<Rightarrow> state \<Rightarrow> api_call list \<Rightarrow> state option" where
  "api_run h s [] = Some s"
| "api_run h s (c # cs) =
     (case api_step h s c of None \<Rightarrow> None | Some s' \<Rightarrow> api_run h s' cs)"

subsection \<open>Invariants of the state\<close>

text \<open>
  Every allocated object has width 1 or 4; every thread's slot is empty or holds a handle;
  once the guard is set, the table holds what \<open>locale_init\<close> writes.
\<close>

definition heap_ok :: "state \<Rightarrow> bool" where
  "heap_ok s = (\<forall>obj \<in> set (heap s). mb_cur_max obj = 1 \<or> mb_cur_max obj = 4)"

definition tls_ok :: "state \<Rightarrow> bool" where
  "tls_ok s = (\<forall>t. tls_locale s t = NULL \<or> is_handle s (tls_locale s t))"

definition table_ok :: "headers \<Rightarrow> state \<Rightarrow> bool" where
  "table_ok h s = (g_locale_once s \<longrightarrow> g_locale (locale_init h s) = g_locale s)"

subsection \<open>Properties of the string functions\<close>

lemma strcmp_eq_0_iff: "strcmp a b = 0 \<longleftrightarrow> a = b"
  by (induction a b rule: strcmp.induct) auto

lemma take_length_eq_iff: "take (length n) h = n \<longleftrightarrow> (\<exists>ys. h = n @ ys)"
  by (metis append_eq_conv_conj append_take_drop_id)

lemma is_supported_locale_iff:
  "is_supported_locale name \<longleftrightarrow>
     name = '''' \<or> name = ''C'' \<or> name = ''C.UTF-8'' \<or> name = ''en_US.UTF-8'' \<or> name = ''POSIX''"
  unfolding is_supported_locale_def strcmp_eq_0_iff by (rule refl)

lemma strstr_Some_iff: "strstr hay needle \<noteq> None \<longleftrightarrow> (\<exists>xs ys. hay = xs @ needle @ ys)"
proof (induction hay)
  case Nil
  then show ?case by simp
next
  case (Cons c cs)
  have "(\<exists>xs ys. c # cs = xs @ needle @ ys) \<longleftrightarrow>
        (\<exists>ys. c # cs = needle @ ys) \<or> (\<exists>xs ys. cs = xs @ needle @ ys)"
    (is "?L \<longleftrightarrow> ?P \<or> ?R")
  proof
    assume ?L
    then obtain xs ys where e: "c # cs = xs @ needle @ ys" by blast
    show "?P \<or> ?R"
    proof (cases xs)
      case Nil
      with e show ?thesis by auto
    next
      case (Cons x xs')
      with e have "cs = xs' @ needle @ ys" by simp
      then show ?thesis by blast
    qed
  next
    assume "?P \<or> ?R"
    then show ?L
    proof
      assume ?P
      then obtain ys where "c # cs = [] @ needle @ ys" by auto
      then show ?L by blast
    next
      assume ?R
      then obtain xs ys where "cs = xs @ needle @ ys" by blast
      then have "c # cs = (c # xs) @ needle @ ys" by simp
      then show ?L by blast
    qed
  qed
  with Cons show ?case
    by (simp add: take_length_eq_iff del: take_Suc_Cons)
qed

lemma is_supported_empty: "is_supported_locale []"
  by (simp add: is_supported_locale_iff)

lemma is_utf8_empty: "is_utf8_locale []"
  by (simp add: is_utf8_locale_def)

subsection \<open>Frame properties\<close>

lemma setlocale_heap: "heap (snd (setlocale h s t c n)) = heap s"
  by (simp add: setlocale_def Let_def)

lemma setlocale_tls: "tls_locale (snd (setlocale h s t c n)) = tls_locale s"
  by (simp add: setlocale_def Let_def)

lemma setlocale_table:
  "g_locale (snd (setlocale h s t c n)) = g_locale s"
  "g_locale_once (snd (setlocale h s t c n)) = g_locale_once s"
  by (simp_all add: setlocale_def Let_def)

lemma newlocale_heap:
  "heap (snd (newlocale h s t m n b)) = heap s \<or>
   (\<exists>w. (w = 1 \<or> w = 4) \<and> heap (snd (newlocale h s t m n b)) = heap s @ [\<lparr>mb_cur_max = w\<rparr>])"
  by (simp add: newlocale_def new_locale_obj_def locale_of_width_def)

lemma newlocale_tls: "tls_locale (snd (newlocale h s t m n b)) = tls_locale s"
  by (simp add: newlocale_def new_locale_obj_def)

lemma newlocale_table:
  "g_locale (snd (newlocale h s t m n b)) = g_locale s"
  "g_locale_once (snd (newlocale h s t m n b)) = g_locale_once s"
  by (simp_all add: newlocale_def new_locale_obj_def)

lemma duplocale_Some:
  assumes "duplocale s l = Some (r, s')"
  shows "\<exists>obj. locale_of_other s l = Some obj \<and> r = Ptr (length (heap s)) \<and>
           s' = s\<lparr>heap := heap s @ [obj]\<rparr>"
  using assms by (auto simp: duplocale_def new_locale_obj_def)

lemma locale_of_other_width:
  assumes "heap_ok s" "locale_of_other s l = Some obj"
  shows "mb_cur_max obj = 1 \<or> mb_cur_max obj = 4"
proof (cases "l = LC_GLOBAL_LOCALE")
  case True
  with assms(2) show ?thesis by (auto simp: locale_of_other_def)
next
  case False
  with assms(2) obtain a where "l = Ptr a" "a < length (heap s)"
    "mb_cur_max obj = mb_cur_max (heap s ! a)"
    by (auto simp: locale_of_other_def deref_def split: locale_t.splits if_splits)
  with assms(1) show ?thesis
    by (simp add: heap_ok_def)
qed

lemma locale_of_other_handle:
  assumes "is_handle s l"
  shows "\<exists>obj. locale_of_other s l = Some obj"
  using assms by (cases l) (simp_all add: is_handle_def locale_of_other_def deref_def)

lemma uselocale_snd:
  "snd (uselocale s t l) = (if l \<noteq> NULL then s\<lparr>tls_locale := (tls_locale s)(t := l)\<rparr> else s)"
  by (simp add: uselocale_def Let_def)

lemma localeconv_snd:
  "snd (localeconv h s) = pthread_once_locale_init h s"
  by (simp add: localeconv_def Let_def)

lemma pthread_once_frame:
  "heap (pthread_once_locale_init h s) = heap s"
  "tls_locale (pthread_once_locale_init h s) = tls_locale s"
  "bionic_current_locale_is_utf8 (pthread_once_locale_init h s) = bionic_current_locale_is_utf8 s"
  "g_locale_once (pthread_once_locale_init h s)"
  by (simp_all add: pthread_once_locale_init_def locale_init_def Let_def)

lemma locale_init_idem: "g_locale (locale_init h (locale_init h s)) = g_locale (locale_init h s)"
  by (simp add: locale_init_def Let_def)

lemma locale_init_g_locale: "g_locale s' = g_locale s \<Longrightarrow> g_locale (locale_init h s') = g_locale (locale_init h s)"
  by (simp add: locale_init_def Let_def)


subsection \<open>What one call changes\<close>

lemma api_step_heap_ext:
  assumes "api_step h s c = Some s'"
  shows "\<exists>objs. heap s' = heap s @ objs"
proof (cases c)
  case (Setlocale t category name)
  with assms show ?thesis by (auto simp: setlocale_heap)
next
  case (Newlocale t m n b)
  with assms newlocale_heap [of h s t m n b] show ?thesis by auto
next
  case (Duplocale l)
  with assms show ?thesis
    by (auto split: if_splits dest!: duplocale_Some)
next
  case (Uselocale t l)
  with assms show ?thesis by (auto simp: uselocale_snd split: if_splits)
next
  case Localeconv
  with assms show ?thesis by (auto simp: localeconv_snd pthread_once_frame)
qed

lemma api_step_heap_ok:
  assumes "heap_ok s" "api_step h s c = Some s'"
  shows "heap_ok s'"
proof (cases c)
  case (Setlocale t category name)
  with assms show ?thesis by (auto simp: heap_ok_def setlocale_heap)
next
  case (Newlocale t m n b)
  with assms newlocale_heap [of h s t m n b] show ?thesis by (auto simp: heap_ok_def)
next
  case (Duplocale l)
  with assms obtain obj where "locale_of_other s l = Some obj" "heap s' = heap s @ [obj]"
    by (auto split: if_splits dest!: duplocale_Some)
  with assms(1) locale_of_other_width [of s l obj] show ?thesis
    by (auto simp: heap_ok_def)
next
  case (Uselocale t l)
  with assms show ?thesis by (auto simp: heap_ok_def uselocale_snd split: if_splits)
next
  case Localeconv
  with assms show ?thesis by (auto simp: heap_ok_def localeconv_snd pthread_once_frame)
qed

lemma is_handle_heap_ext:
  assumes "is_handle s l" "heap s' = heap s @ objs"
  shows "is_handle s' l"
  using assms by (cases l) (simp_all add: is_handle_def)

lemma tls_ok_heap_ext:
  assumes "tls_ok s" "tls_locale s' = tls_locale s" "heap s' = heap s @ objs"
  shows "tls_ok s'"
  unfolding tls_ok_def
proof
  fix t
  from assms(1) have "tls_locale s t = NULL \<or> is_handle s (tls_locale s t)"
    by (simp add: tls_ok_def)
  with assms(2,3) show "tls_locale s' t = NULL \<or> is_handle s' (tls_locale s' t)"
    by (auto intro: is_handle_heap_ext)
qed

lemma api_step_tls_ok:
  assumes "tls_ok s" "api_step h s c = Some s'"
  shows "tls_ok s'"
proof (cases c)
  case (Setlocale t category name)
  with assms show ?thesis
    by (auto intro: tls_ok_heap_ext [where objs = "[]"] simp: setlocale_heap setlocale_tls)
next
  case (Newlocale t m n b)
  from api_step_heap_ext [OF assms(2)] obtain objs where "heap s' = heap s @ objs" ..
  with Newlocale assms show ?thesis
    by (auto intro: tls_ok_heap_ext simp: newlocale_tls)
next
  case (Duplocale l)
  from api_step_heap_ext [OF assms(2)] obtain objs where "heap s' = heap s @ objs" ..
  moreover from Duplocale assms(2) have "tls_locale s' = tls_locale s"
    by (auto split: if_splits dest!: duplocale_Some)
  ultimately show ?thesis using assms(1) by (auto intro: tls_ok_heap_ext)
next
  case (Uselocale t l)
  show ?thesis
  proof (cases "l = NULL")
    case True
    with Uselocale assms show ?thesis by (simp add: uselocale_snd)
  next
    case False
    with Uselocale assms(2) have l: "is_handle s l"
      and s': "s' = s\<lparr>tls_locale := (tls_locale s)(t := l)\<rparr>"
      by (auto simp: uselocale_snd split: if_splits)
    show ?thesis unfolding tls_ok_def
    proof
      fix u
      from assms(1) have "tls_locale s u = NULL \<or> is_handle s (tls_locale s u)"
        by (simp add: tls_ok_def)
      with l s' show "tls_locale s' u = NULL \<or> is_handle s' (tls_locale s' u)"
        by (auto simp: is_handle_def split: locale_t.splits)
    qed
  qed
next
  case Localeconv
  with assms show ?thesis
    by (auto intro: tls_ok_heap_ext [where objs = "[]"] simp: localeconv_snd pthread_once_frame)
qed

lemma api_step_table_ok:
  assumes "table_ok h s" "api_step h s c = Some s'"
  shows "table_ok h s'"
proof -
  have keep: "table_ok h s1" if "g_locale s1 = g_locale s" "g_locale_once s1 = g_locale_once s"
    for s1 :: state
    using that assms(1) locale_init_g_locale [of s1 s h] by (simp add: table_ok_def)
  show ?thesis
  proof (cases c)
    case (Setlocale t category name)
    with assms(2) show ?thesis by (auto intro!: keep simp: setlocale_table)
  next
    case (Newlocale t m n b)
    with assms(2) show ?thesis by (auto intro!: keep simp: newlocale_table)
  next
    case (Duplocale l)
    with assms(2) show ?thesis by (auto intro!: keep split: if_splits dest!: duplocale_Some)
  next
    case (Uselocale t l)
    with assms(2) show ?thesis by (auto intro!: keep simp: uselocale_snd split: if_splits)
  next
    case Localeconv
    with assms(2) have s': "s' = pthread_once_locale_init h s"
      by (simp add: localeconv_snd)
    show ?thesis
    proof (cases "g_locale_once s")
      case True
      with s' assms(1) show ?thesis by (simp add: pthread_once_locale_init_def)
    next
      case False
      with s' have "g_locale s' = g_locale (locale_init h s)"
        by (simp add: pthread_once_locale_init_def)
      then have "g_locale (locale_init h s') = g_locale s'"
        using locale_init_g_locale [of s' "locale_init h s" h] locale_init_idem [of h s] by simp
      then show ?thesis by (simp add: table_ok_def)
    qed
  qed
qed

lemma api_step_tls_other:
  assumes "api_step h s c = Some s'" "\<forall>l. c = Uselocale t l \<longrightarrow> l = NULL"
  shows "tls_locale s' t = tls_locale s t"
proof (cases c)
  case (Setlocale t category name)
  with assms show ?thesis by (auto simp: setlocale_tls)
next
  case (Newlocale t m n b)
  with assms show ?thesis by (auto simp: newlocale_tls)
next
  case (Duplocale l)
  with assms show ?thesis by (auto split: if_splits dest!: duplocale_Some)
next
  case (Uselocale u l)
  with assms show ?thesis by (auto simp: uselocale_snd split: if_splits)
next
  case Localeconv
  with assms show ?thesis by (auto simp: localeconv_snd pthread_once_frame)
qed

subsection \<open>What a sequence of calls changes\<close>

lemma api_run_heap_ext:
  "api_run h s cs = Some s' \<Longrightarrow> \<exists>objs. heap s' = heap s @ objs"
proof (induction cs arbitrary: s)
  case Nil
  then show ?case by simp
next
  case (Cons c cs)
  then obtain s1 where 1: "api_step h s c = Some s1" and 2: "api_run h s1 cs = Some s'"
    by (auto split: option.splits)
  from api_step_heap_ext [OF 1] obtain m1 where "heap s1 = heap s @ m1" ..
  moreover from Cons.IH [OF 2] obtain m2 where "heap s' = heap s1 @ m2" ..
  ultimately have "heap s' = heap s @ (m1 @ m2)" by simp
  then show ?case ..
qed

lemma api_run_invariant:
  assumes step: "\<And>s c s'. P s \<Longrightarrow> api_step h s c = Some s' \<Longrightarrow> P s'"
  shows "P s \<Longrightarrow> api_run h s cs = Some s' \<Longrightarrow> P s'"
proof (induction cs arbitrary: s)
  case Nil
  then show ?case by simp
next
  case (Cons c cs)
  then obtain s1 where 1: "api_step h s c = Some s1" and 2: "api_run h s1 cs = Some s'"
    by (auto split: option.splits)
  from step [OF Cons.prems(1) 1] Cons.IH 2 show ?case by blast
qed

lemma api_run_heap_ok: "heap_ok s \<Longrightarrow> api_run h s cs = Some s' \<Longrightarrow> heap_ok s'"
  by (rule api_run_invariant [where P = heap_ok]) (rule api_step_heap_ok)

lemma api_run_tls_ok: "tls_ok s \<Longrightarrow> api_run h s cs = Some s' \<Longrightarrow> tls_ok s'"
  by (rule api_run_invariant [where P = tls_ok]) (rule api_step_tls_ok)

lemma api_run_table_ok: "table_ok h s \<Longrightarrow> api_run h s cs = Some s' \<Longrightarrow> table_ok h s'"
  by (rule api_run_invariant [where P = "table_ok h"]) (rule api_step_table_ok)

lemma api_run_tls_other:
  "api_run h s cs = Some s' \<Longrightarrow> \<forall>l. Uselocale t l \<in> set cs \<longrightarrow> l = NULL \<Longrightarrow>
   tls_locale s' t = tls_locale s t"
proof (induction cs arbitrary: s)
  case Nil
  then show ?case by simp
next
  case (Cons c cs)
  then obtain s1 where 1: "api_step h s c = Some s1" and 2: "api_run h s1 cs = Some s'"
    by (auto split: option.splits)
  from Cons.prems(2) have "\<forall>l. c = Uselocale t l \<longrightarrow> l = NULL" by auto
  from api_step_tls_other [OF 1 this] have "tls_locale s1 t = tls_locale s t" .
  moreover from Cons.IH [OF 2] Cons.prems(2) have "tls_locale s' t = tls_locale s1 t" by auto
  ultimately show ?case by simp
qed

lemma init_state_ok: "heap_ok init_state" "tls_ok init_state" "table_ok h init_state"
  by (simp_all add: heap_ok_def tls_ok_def table_ok_def init_state_def)

lemma deref_heap_ext:
  assumes "a < length (heap s)" "heap s' = heap s @ objs"
  shows "deref s' (Ptr a) = deref s (Ptr a)"
  using assms by (simp add: deref_def nth_append)

subsection \<open>The width query and the format table\<close>

lemma ctype_get_mb_cur_max_ptr:
  assumes "tls_locale s t = Ptr a" "a < length (heap s)"
  shows "ctype_get_mb_cur_max s t = Some (mb_cur_max (heap s ! a), s)"
  using assms by (simp add: ctype_get_mb_cur_max_def uselocale_def Let_def deref_def)

lemma ctype_get_mb_cur_max_global:
  assumes "tls_locale s t = NULL \<or> tls_locale s t = LC_GLOBAL_LOCALE"
  shows "ctype_get_mb_cur_max s t = Some (if bionic_current_locale_is_utf8 s then 4 else 1, s)"
  using assms by (auto simp: ctype_get_mb_cur_max_def uselocale_def Let_def)

lemma locale_init_table:
  "g_locale (locale_init h s) =
     \<lparr>decimal_point = Some ''.'', thousands_sep = Some '''', grouping = Some '''',
      int_curr_symbol = Some '''', currency_symbol = Some '''', mon_decimal_point = Some '''',
      mon_thousands_sep = Some '''', mon_grouping = Some '''', positive_sign = Some '''',
      negative_sign = Some '''',
      int_frac_digits = CHAR_MAX h, frac_digits = CHAR_MAX h, p_cs_precedes = CHAR_MAX h,
      p_sep_by_space = CHAR_MAX h, n_cs_precedes = CHAR_MAX h, n_sep_by_space = CHAR_MAX h,
      p_sign_posn = CHAR_MAX h, n_sign_posn = CHAR_MAX h, int_p_cs_precedes = CHAR_MAX h,
      int_p_sep_by_space = CHAR_MAX h, int_n_cs_precedes = CHAR_MAX h,
      int_n_sep_by_space = CHAR_MAX h, int_p_sign_posn = CHAR_MAX h,
      int_n_sign_posn = CHAR_MAX h\<rparr>"
  by (cases "g_locale s") (simp add: locale_init_def Let_def)

lemma localeconv_table_ok:
  assumes "table_ok h s"
  shows "fst (localeconv h s) = g_locale (locale_init h s)"
    and "localeconv h (snd (localeconv h s)) = localeconv h s"
  using assms
  by (simp_all add: localeconv_def pthread_once_locale_init_def table_ok_def Let_def)

section \<open>The locale name checks\<close>

text \<open>
  Claim C2. For every name, \<open>is_supported_locale\<close> holds exactly for the five names
  \<open>''''\<close>, \<open>''C''\<close>, \<open>''POSIX''\<close>, \<open>''C.UTF-8''\<close> and \<open>''en_US.UTF-8''\<close>, and
  \<open>is_utf8_locale\<close> holds exactly for the empty name and for the names that contain
  \<open>''UTF-8''\<close> somewhere. Both are functions of the name alone, defined for every name.
\<close>

theorem locale_name_checks:
  "(is_supported_locale name \<longleftrightarrow>
      name = '''' \<or> name = ''C'' \<or> name = ''POSIX'' \<or> name = ''C.UTF-8'' \<or>
      name = ''en_US.UTF-8'') \<and>
   (is_utf8_locale name \<longleftrightarrow> name = '''' \<or> (\<exists>xs ys. name = xs @ ''UTF-8'' @ ys))"
proof
  show "is_supported_locale name \<longleftrightarrow>
      name = '''' \<or> name = ''C'' \<or> name = ''POSIX'' \<or> name = ''C.UTF-8'' \<or>
      name = ''en_US.UTF-8''"
    unfolding is_supported_locale_iff by blast
  show "is_utf8_locale name \<longleftrightarrow> name = '''' \<or> (\<exists>xs ys. name = xs @ ''UTF-8'' @ ys)"
    unfolding is_utf8_locale_def strstr_Some_iff by (rule refl)
qed

text \<open>
  The theorem at three names: \<open>''en_US.UTF-8''\<close> is supported and contains \<open>''UTF-8''\<close>,
  \<open>''UTF-8''\<close> is not supported, \<open>''POSIX''\<close> does not contain \<open>''UTF-8''\<close>.
\<close>

theorem locale_name_checks_witness:
  "is_supported_locale ''en_US.UTF-8'' \<and> (\<exists>xs ys. ''en_US.UTF-8'' = xs @ ''UTF-8'' @ ys) \<and>
   \<not> is_supported_locale ''UTF-8'' \<and>
   \<not> (''POSIX'' = '''' \<or> (\<exists>xs ys. ''POSIX'' = xs @ ''UTF-8'' @ ys))"
proof -
  have "is_utf8_locale ''en_US.UTF-8''" "\<not> is_utf8_locale ''POSIX''"
    by (simp_all add: is_utf8_locale_def)
  with locale_name_checks [of "''en_US.UTF-8''"] locale_name_checks [of "''UTF-8''"]
    locale_name_checks [of "''POSIX''"]
  show ?thesis by simp
qed

section \<open>The default locale\<close>

text \<open>
  Claim C10. With a valid category, \<open>setlocale\<close> with a null name returns the current
  canonical name (\<open>''C.UTF-8''\<close> when the flag is set, \<open>''C''\<close> otherwise) and leaves the
  whole state unchanged. The empty string is not the query form: it is a supported name,
  so the call assigns the flag (to \<open>True\<close>) and returns \<open>''C.UTF-8''\<close>.
\<close>

theorem setlocale_null_is_query:
  assumes "LC_CTYPE h \<le> category" "category \<le> LC_IDENTIFICATION h"
  shows "setlocale h s t category None =
           (Some (if bionic_current_locale_is_utf8 s then ''C.UTF-8'' else ''C''), s) \<and>
         setlocale h s t category (Some '''') =
           (Some ''C.UTF-8'', s\<lparr>bionic_current_locale_is_utf8 := True\<rparr>)"
  using assms by (simp add: setlocale_def is_supported_empty is_utf8_empty)

text \<open>The theorem in the state where the flag is off, for the category \<^verbatim>\<open>LC_ALL\<close>.\<close>

theorem setlocale_null_is_query_witness:
  "LC_CTYPE bionic_headers \<le> 6 \<and> 6 \<le> LC_IDENTIFICATION bionic_headers \<and>
   setlocale bionic_headers (init_state\<lparr>bionic_current_locale_is_utf8 := False\<rparr>) 0 6 None =
     (Some ''C'', init_state\<lparr>bionic_current_locale_is_utf8 := False\<rparr>) \<and>
   setlocale bionic_headers (init_state\<lparr>bionic_current_locale_is_utf8 := False\<rparr>) 0 6 (Some '''') =
     (Some ''C.UTF-8'', init_state)"
  using setlocale_null_is_query
    [of bionic_headers 6 "init_state\<lparr>bionic_current_locale_is_utf8 := False\<rparr>" 0]
  by (simp add: bionic_headers_def init_state_def)

text \<open>
  Claim C1, as stated, fails: with the empty string as name \<open>setlocale\<close> is not a pure
  query. After \<^verbatim>\<open>setlocale(LC_ALL, "C")\<close> the flag is off and a query returns \<open>''C''\<close>;
  the call \<^verbatim>\<open>setlocale(LC_ALL, "")\<close> in that state returns \<open>''C.UTF-8''\<close> and turns the flag
  on.
\<close>

theorem setlocale_empty_name_not_query:
  "snd (setlocale bionic_headers init_state 0 6 (Some ''C'')) =
     init_state\<lparr>bionic_current_locale_is_utf8 := False\<rparr> \<and>
   fst (setlocale bionic_headers (init_state\<lparr>bionic_current_locale_is_utf8 := False\<rparr>) 0 6 None) =
     Some ''C'' \<and>
   fst (setlocale bionic_headers (init_state\<lparr>bionic_current_locale_is_utf8 := False\<rparr>) 0 6 (Some '''')) =
     Some ''C.UTF-8'' \<and>
   \<not> bionic_current_locale_is_utf8 (init_state\<lparr>bionic_current_locale_is_utf8 := False\<rparr>) \<and>
   bionic_current_locale_is_utf8
     (snd (setlocale bionic_headers (init_state\<lparr>bionic_current_locale_is_utf8 := False\<rparr>) 0 6 (Some '''')))"
  by (simp add: setlocale_def bionic_headers_def init_state_def is_supported_locale_def
      is_utf8_locale_def)

text \<open>
  Claim C1, amended. With a valid category and the empty string as name, \<open>setlocale\<close>
  sets the flag and returns \<open>''C.UTF-8''\<close>. The state is left unchanged exactly when the
  flag was set before the call, and exactly then the result is the name that a query
  would have returned.
\<close>

theorem setlocale_empty_name:
  assumes "LC_CTYPE h \<le> category" "category \<le> LC_IDENTIFICATION h"
  shows "setlocale h s t category (Some '''') =
           (Some ''C.UTF-8'', s\<lparr>bionic_current_locale_is_utf8 := True\<rparr>) \<and>
         (snd (setlocale h s t category (Some '''')) = s \<longleftrightarrow> bionic_current_locale_is_utf8 s) \<and>
         (fst (setlocale h s t category (Some '''')) = fst (setlocale h s t category None)
            \<longleftrightarrow> bionic_current_locale_is_utf8 s)"
proof -
  have r: "setlocale h s t category (Some '''') =
           (Some ''C.UTF-8'', s\<lparr>bionic_current_locale_is_utf8 := True\<rparr>)"
    using assms by (simp add: setlocale_def is_supported_empty is_utf8_empty)
  have q: "fst (setlocale h s t category None) =
           Some (if bionic_current_locale_is_utf8 s then ''C.UTF-8'' else ''C'')"
    using assms by (simp add: setlocale_def)
  have "s\<lparr>bionic_current_locale_is_utf8 := True\<rparr> = s \<longleftrightarrow> bionic_current_locale_is_utf8 s"
    by (cases s) auto
  with r q show ?thesis by simp
qed

text \<open>The amended claim in the initial state, where the flag is set.\<close>

theorem setlocale_empty_name_witness:
  "LC_CTYPE bionic_headers \<le> 0 \<and> 0 \<le> LC_IDENTIFICATION bionic_headers \<and>
   setlocale bionic_headers init_state 0 0 (Some '''') = (Some ''C.UTF-8'', init_state) \<and>
   fst (setlocale bionic_headers init_state 0 0 (Some '''')) =
     fst (setlocale bionic_headers init_state 0 0 None)"
proof -
  have c: "LC_CTYPE bionic_headers \<le> 0" "0 \<le> LC_IDENTIFICATION bionic_headers"
    by (simp_all add: bionic_headers_def)
  have u: "bionic_current_locale_is_utf8 init_state"
    and i: "init_state\<lparr>bionic_current_locale_is_utf8 := True\<rparr> = init_state"
    by (simp_all add: init_state_def)
  from setlocale_empty_name [OF c, of init_state 0] u i c show ?thesis by auto
qed

text \<open>
  Claim C6. With a valid category and a name that \<open>is_supported_locale\<close> rejects,
  \<open>setlocale\<close> returns the null pointer and sets the calling thread's \<open>errno\<close> to
  \<^verbatim>\<open>ENOENT\<close>; nothing else changes. The flag is as before, and a query after the failed
  call, by any thread and for any category, returns what it would have returned before.
\<close>

theorem setlocale_unsupported:
  assumes "LC_CTYPE h \<le> category" "category \<le> LC_IDENTIFICATION h"
    and "\<not> is_supported_locale name"
  shows "setlocale h s t category (Some name) = (None, s\<lparr>errno := (errno s)(t := ENOENT h)\<rparr>) \<and>
         bionic_current_locale_is_utf8 (snd (setlocale h s t category (Some name))) =
           bionic_current_locale_is_utf8 s \<and>
         (\<forall>u c. fst (setlocale h (snd (setlocale h s t category (Some name))) u c None) =
                fst (setlocale h s u c None))"
  using assms by (simp add: setlocale_def)

text \<open>
  The theorem for the name \<open>''bogus''\<close> in the initial state.
\<close>

theorem setlocale_unsupported_witness:
  "LC_CTYPE bionic_headers \<le> 6 \<and> 6 \<le> LC_IDENTIFICATION bionic_headers \<and>
   \<not> is_supported_locale ''bogus'' \<and>
   setlocale bionic_headers init_state 0 6 (Some ''bogus'') =
     (None, init_state\<lparr>errno := (\<lambda>_. 0)(0 := 2)\<rparr>) \<and>
   fst (setlocale bionic_headers (snd (setlocale bionic_headers init_state 0 6 (Some ''bogus''))) 0 6 None) =
     fst (setlocale bionic_headers init_state 0 6 None)"
proof -
  have c: "LC_CTYPE bionic_headers \<le> 6" "6 \<le> LC_IDENTIFICATION bionic_headers"
    by (simp_all add: bionic_headers_def)
  have n: "\<not> is_supported_locale ''bogus''"
    by (simp add: is_supported_locale_def)
  have e: "errno init_state = (\<lambda>_. 0)" "ENOENT bionic_headers = 2"
    by (simp_all add: init_state_def bionic_headers_def)
  from setlocale_unsupported [OF c n, of init_state 0] c n e show ?thesis by auto
qed

section \<open>Creating and copying locales\<close>

text \<open>
  Claim C7. \<open>newlocale\<close> returns the null pointer and sets \<open>errno\<close> to \<^verbatim>\<open>EINVAL\<close>
  when the category mask has a bit outside \<^verbatim>\<open>LC_ALL_MASK\<close>, whatever the name is (null,
  supported or not), and also when the name is null.
\<close>

theorem newlocale_einval:
  assumes "category_mask AND NOT (LC_ALL_MASK h) \<noteq> 0 \<or> locale_name = None"
  shows "newlocale h s t category_mask locale_name base =
           (NULL, s\<lparr>errno := (errno s)(t := EINVAL h)\<rparr>)"
  using assms by (auto simp: newlocale_def)

text \<open>
  The theorem for a mask with bit 13, with a supported name, an unsupported name and the
  null pointer, and for a legal mask with the null pointer.
\<close>

theorem newlocale_einval_witness:
  "0x2000 AND NOT (LC_ALL_MASK bionic_headers) \<noteq> 0 \<and>
   is_supported_locale ''C'' \<and> \<not> is_supported_locale ''bogus'' \<and>
   0 AND NOT (LC_ALL_MASK bionic_headers) = 0 \<and>
   newlocale bionic_headers init_state 0 0x2000 (Some ''C'') NULL =
     (NULL, init_state\<lparr>errno := (errno init_state)(0 := EINVAL bionic_headers)\<rparr>) \<and>
   newlocale bionic_headers init_state 0 0x2000 (Some ''bogus'') NULL =
     (NULL, init_state\<lparr>errno := (errno init_state)(0 := EINVAL bionic_headers)\<rparr>) \<and>
   newlocale bionic_headers init_state 0 0x2000 None NULL =
     (NULL, init_state\<lparr>errno := (errno init_state)(0 := EINVAL bionic_headers)\<rparr>) \<and>
   newlocale bionic_headers init_state 0 0 None NULL =
     (NULL, init_state\<lparr>errno := (errno init_state)(0 := EINVAL bionic_headers)\<rparr>)"
proof -
  have m: "(0x2000 :: 32 word) AND NOT (LC_ALL_MASK bionic_headers) \<noteq> 0"
    by (simp add: bionic_headers_def)
  have z: "(0 :: 32 word) AND NOT (LC_ALL_MASK bionic_headers) = 0"
    by simp
  have n: "is_supported_locale ''C''" "\<not> is_supported_locale ''bogus''"
    by (simp_all add: is_supported_locale_def)
  from m z n
    newlocale_einval [of "0x2000" bionic_headers "Some ''C''" init_state 0 NULL]
    newlocale_einval [of "0x2000" bionic_headers "Some ''bogus''" init_state 0 NULL]
    newlocale_einval [of "0x2000" bionic_headers None init_state 0 NULL]
    newlocale_einval [of 0 bionic_headers None init_state 0 NULL]
  show ?thesis by simp
qed

text \<open>
  Claim C3. For a supported name and a category mask inside \<^verbatim>\<open>LC_ALL_MASK\<close>,
  \<open>newlocale\<close> returns a pointer to a new object whose \<open>mb_cur_max\<close> is 4 when
  \<open>is_utf8_locale\<close> holds for the name and 1 otherwise; once a thread has installed the
  handle with \<open>uselocale\<close>, \<open>ctype_get_mb_cur_max\<close> returns that width on this thread.
\<close>

theorem newlocale_width:
  assumes "is_supported_locale name" "category_mask AND NOT (LC_ALL_MASK h) = 0"
  shows "\<exists>a s'. newlocale h s t category_mask (Some name) base = (Ptr a, s') \<and>
           deref s' (Ptr a) = Some \<lparr>mb_cur_max = (if is_utf8_locale name then 4 else 1)\<rparr> \<and>
           (\<forall>u. ctype_get_mb_cur_max (snd (uselocale s' u (Ptr a))) u =
                  Some (if is_utf8_locale name then 4 else 1, snd (uselocale s' u (Ptr a))))"
proof -
  let ?w = "if is_utf8_locale name then 4 else 1 :: nat"
  let ?s' = "s\<lparr>heap := heap s @ [\<lparr>mb_cur_max = ?w\<rparr>]\<rparr>"
  let ?a = "length (heap s)"
  from assms have r: "newlocale h s t category_mask (Some name) base = (Ptr ?a, ?s')"
    by (simp add: newlocale_def new_locale_obj_def locale_of_width_def)
  have d: "deref ?s' (Ptr ?a) = Some \<lparr>mb_cur_max = ?w\<rparr>"
    by (simp add: deref_def)
  have "ctype_get_mb_cur_max (snd (uselocale ?s' u (Ptr ?a))) u =
          Some (?w, snd (uselocale ?s' u (Ptr ?a)))" for u
    using ctype_get_mb_cur_max_ptr [of "snd (uselocale ?s' u (Ptr ?a))" u ?a]
    by (simp add: uselocale_snd)
  with r d show ?thesis by blast
qed

text \<open>
  The theorem in the initial state, for the names \<open>''en_US.UTF-8''\<close> (width 4) and
  \<open>''POSIX''\<close> (width 1).
\<close>

theorem newlocale_width_witness:
  "is_supported_locale ''en_US.UTF-8'' \<and> is_utf8_locale ''en_US.UTF-8'' \<and>
   is_supported_locale ''POSIX'' \<and> \<not> is_utf8_locale ''POSIX'' \<and>
   0x1FBF AND NOT (LC_ALL_MASK bionic_headers) = 0 \<and>
   newlocale bionic_headers init_state 0 0x1FBF (Some ''en_US.UTF-8'') NULL =
     (Ptr 0, init_state\<lparr>heap := [\<lparr>mb_cur_max = 4\<rparr>]\<rparr>) \<and>
   deref (init_state\<lparr>heap := [\<lparr>mb_cur_max = 4\<rparr>]\<rparr>) (Ptr 0) = Some \<lparr>mb_cur_max = 4\<rparr> \<and>
   fst (the (ctype_get_mb_cur_max
     (snd (uselocale (init_state\<lparr>heap := [\<lparr>mb_cur_max = 4\<rparr>]\<rparr>) 0 (Ptr 0))) 0)) = 4 \<and>
   newlocale bionic_headers init_state 0 0x1FBF (Some ''POSIX'') NULL =
     (Ptr 0, init_state\<lparr>heap := [\<lparr>mb_cur_max = 1\<rparr>]\<rparr>) \<and>
   deref (init_state\<lparr>heap := [\<lparr>mb_cur_max = 1\<rparr>]\<rparr>) (Ptr 0) = Some \<lparr>mb_cur_max = 1\<rparr> \<and>
   fst (the (ctype_get_mb_cur_max
     (snd (uselocale (init_state\<lparr>heap := [\<lparr>mb_cur_max = 1\<rparr>]\<rparr>) 0 (Ptr 0))) 0)) = 1"
proof -
  have n: "is_supported_locale ''en_US.UTF-8''" "is_supported_locale ''POSIX''"
    by (simp_all add: is_supported_locale_def)
  have u: "is_utf8_locale ''en_US.UTF-8''" "\<not> is_utf8_locale ''POSIX''"
    by (simp_all add: is_utf8_locale_def)
  have m: "(0x1FBF :: 32 word) AND NOT (LC_ALL_MASK bionic_headers) = 0"
    by (simp add: bionic_headers_def)
  have e: "heap init_state = []"
    by (simp add: init_state_def)
  from newlocale_width [OF n(1) m, of init_state 0 NULL] u(1)
  obtain a s' where r: "newlocale bionic_headers init_state 0 0x1FBF (Some ''en_US.UTF-8'') NULL = (Ptr a, s')"
    and d: "deref s' (Ptr a) = Some \<lparr>mb_cur_max = 4\<rparr>"
    and c: "ctype_get_mb_cur_max (snd (uselocale s' 0 (Ptr a))) 0 = Some (4, snd (uselocale s' 0 (Ptr a)))"
    by auto
  from r n(1) u(1) m e have v: "a = 0" "s' = init_state\<lparr>heap := [\<lparr>mb_cur_max = 4\<rparr>]\<rparr>"
    by (simp_all add: newlocale_def new_locale_obj_def locale_of_width_def)
  from newlocale_width [OF n(2) m, of init_state 0 NULL] u(2)
  obtain b s2 where r2: "newlocale bionic_headers init_state 0 0x1FBF (Some ''POSIX'') NULL = (Ptr b, s2)"
    and d2: "deref s2 (Ptr b) = Some \<lparr>mb_cur_max = 1\<rparr>"
    and c2: "ctype_get_mb_cur_max (snd (uselocale s2 0 (Ptr b))) 0 = Some (1, snd (uselocale s2 0 (Ptr b)))"
    by auto
  from r2 n(2) u(2) m e have v2: "b = 0" "s2 = init_state\<lparr>heap := [\<lparr>mb_cur_max = 1\<rparr>]\<rparr>"
    by (simp_all add: newlocale_def new_locale_obj_def locale_of_width_def)
  from n u m r d c r2 d2 c2 show ?thesis
    unfolding v v2 by simp
qed

text \<open>
  Claim C4. \<open>duplocale\<close> of a handle (\<^verbatim>\<open>LC_GLOBAL_LOCALE\<close> or a pointer to an allocated
  object) always returns a pointer to a new object. For \<^verbatim>\<open>LC_GLOBAL_LOCALE\<close> its width is
  4 or 1 according to the flag at the time of the call; for a pointer it is the width of
  the object pointed to. No later call changes the new object: not \<open>setlocale\<close>, and no
  sequence of calls.
\<close>

theorem duplocale_snapshot:
  assumes "is_handle s l"
  shows "\<exists>a s' obj. duplocale s l = Some (Ptr a, s') \<and> deref s' (Ptr a) = Some obj \<and>
           (l = LC_GLOBAL_LOCALE \<longrightarrow>
              mb_cur_max obj = (if bionic_current_locale_is_utf8 s then 4 else 1)) \<and>
           (\<forall>orig. deref s l = Some orig \<longrightarrow> mb_cur_max obj = mb_cur_max orig) \<and>
           (\<forall>h t category name.
              deref (snd (setlocale h s' t category name)) (Ptr a) = Some obj) \<and>
           (\<forall>h calls s''. api_run h s' calls = Some s'' \<longrightarrow> deref s'' (Ptr a) = Some obj)"
proof -
  from locale_of_other_handle [OF assms] obtain obj where o: "locale_of_other s l = Some obj" ..
  let ?a = "length (heap s)"
  let ?s' = "s\<lparr>heap := heap s @ [obj]\<rparr>"
  from o have r: "duplocale s l = Some (Ptr ?a, ?s')"
    by (simp add: duplocale_def new_locale_obj_def)
  have d: "deref ?s' (Ptr ?a) = Some obj"
    by (simp add: deref_def)
  have g: "mb_cur_max obj = (if bionic_current_locale_is_utf8 s then 4 else 1)"
    if "l = LC_GLOBAL_LOCALE"
    using o that by (auto simp: locale_of_other_def)
  have c: "mb_cur_max obj = mb_cur_max orig" if "deref s l = Some orig" for orig
    using o that by (auto simp: locale_of_other_def deref_def split: locale_t.splits)
  have a: "?a < length (heap ?s')" by simp
  have run: "deref s'' (Ptr ?a) = Some obj" if "api_run h ?s' calls = Some s''" for h calls s''
  proof -
    from api_run_heap_ext [OF that] obtain objs where "heap s'' = heap ?s' @ objs" ..
    from deref_heap_ext [OF a this] d show ?thesis by simp
  qed
  have "deref (snd (setlocale h ?s' t category name)) (Ptr ?a) = Some obj" for h t category name
    using run [of h "[Setlocale t category name]"] by simp
  with r d g c run show ?thesis by blast
qed

text \<open>
  The theorem in a state with one object of width 1 and the flag set: the copy of
  \<^verbatim>\<open>LC_GLOBAL_LOCALE\<close> has width 4 and keeps it after \<^verbatim>\<open>setlocale(LC_ALL, "C")\<close>; the copy
  of the object has width 1.
\<close>

theorem duplocale_snapshot_witness:
  "is_handle (init_state\<lparr>heap := [\<lparr>mb_cur_max = 1\<rparr>]\<rparr>) LC_GLOBAL_LOCALE \<and>
   is_handle (init_state\<lparr>heap := [\<lparr>mb_cur_max = 1\<rparr>]\<rparr>) (Ptr 0) \<and>
   deref (init_state\<lparr>heap := [\<lparr>mb_cur_max = 1\<rparr>]\<rparr>) (Ptr 0) = Some \<lparr>mb_cur_max = 1\<rparr> \<and>
   duplocale (init_state\<lparr>heap := [\<lparr>mb_cur_max = 1\<rparr>]\<rparr>) LC_GLOBAL_LOCALE =
     Some (Ptr 1, init_state\<lparr>heap := [\<lparr>mb_cur_max = 1\<rparr>, \<lparr>mb_cur_max = 4\<rparr>]\<rparr>) \<and>
   api_run bionic_headers (init_state\<lparr>heap := [\<lparr>mb_cur_max = 1\<rparr>, \<lparr>mb_cur_max = 4\<rparr>]\<rparr>)
       [Setlocale 0 6 (Some ''C'')] =
     Some (init_state\<lparr>bionic_current_locale_is_utf8 := False,
                      heap := [\<lparr>mb_cur_max = 1\<rparr>, \<lparr>mb_cur_max = 4\<rparr>]\<rparr>) \<and>
   deref (init_state\<lparr>bionic_current_locale_is_utf8 := False,
                     heap := [\<lparr>mb_cur_max = 1\<rparr>, \<lparr>mb_cur_max = 4\<rparr>]\<rparr>) (Ptr 1) =
     Some \<lparr>mb_cur_max = 4\<rparr> \<and>
   duplocale (init_state\<lparr>heap := [\<lparr>mb_cur_max = 1\<rparr>]\<rparr>) (Ptr 0) =
     Some (Ptr 1, init_state\<lparr>heap := [\<lparr>mb_cur_max = 1\<rparr>, \<lparr>mb_cur_max = 1\<rparr>]\<rparr>) \<and>
   deref (init_state\<lparr>heap := [\<lparr>mb_cur_max = 1\<rparr>, \<lparr>mb_cur_max = 1\<rparr>]\<rparr>) (Ptr 1) =
     Some \<lparr>mb_cur_max = 1\<rparr>"
proof -
  let ?s = "init_state\<lparr>heap := [\<lparr>mb_cur_max = 1\<rparr>]\<rparr>"
  let ?g = "init_state\<lparr>heap := [\<lparr>mb_cur_max = 1\<rparr>, \<lparr>mb_cur_max = 4\<rparr>]\<rparr>"
  let ?c = "init_state\<lparr>bionic_current_locale_is_utf8 := False,
                       heap := [\<lparr>mb_cur_max = 1\<rparr>, \<lparr>mb_cur_max = 4\<rparr>]\<rparr>"
  let ?p = "init_state\<lparr>heap := [\<lparr>mb_cur_max = 1\<rparr>, \<lparr>mb_cur_max = 1\<rparr>]\<rparr>"
  have hs: "is_handle ?s LC_GLOBAL_LOCALE" "is_handle ?s (Ptr 0)"
    by (simp_all add: is_handle_def)
  have o: "deref ?s (Ptr 0) = Some \<lparr>mb_cur_max = 1\<rparr>"
    by (simp add: deref_def)
  have g: "duplocale ?s LC_GLOBAL_LOCALE = Some (Ptr 1, ?g)"
    by (simp add: duplocale_def locale_of_other_def new_locale_obj_def init_state_def)
  have p: "duplocale ?s (Ptr 0) = Some (Ptr 1, ?p)"
    by (simp add: duplocale_def locale_of_other_def new_locale_obj_def deref_def)
  have r: "api_run bionic_headers ?g [Setlocale 0 6 (Some ''C'')] = Some ?c"
    by (simp add: setlocale_def bionic_headers_def is_supported_locale_def is_utf8_locale_def
        init_state_def)
  have f: "bionic_current_locale_is_utf8 ?s"
    by (simp add: init_state_def)
  from duplocale_snapshot [OF hs(1)] g f
  obtain obj where w: "mb_cur_max obj = 4"
    and run: "\<forall>h calls s''. api_run h ?g calls = Some s'' \<longrightarrow> deref s'' (Ptr 1) = Some obj"
    by auto
  from run r have "deref ?c (Ptr 1) = Some obj"
    by blast
  with w have 1: "deref ?c (Ptr 1) = Some \<lparr>mb_cur_max = 4\<rparr>"
    by (cases obj) simp
  from duplocale_snapshot [OF hs(2)] p o
  obtain obj where "deref ?p (Ptr 1) = Some obj" and "mb_cur_max obj = 1"
    by auto
  then have 2: "deref ?p (Ptr 1) = Some \<lparr>mb_cur_max = 1\<rparr>"
    by simp
  from hs o g p r 1 2 show ?thesis by simp
qed

section \<open>The thread's locale\<close>

text \<open>
  Claim C5. \<open>uselocale\<close> with a non-null argument stores it in the calling thread's slot
  and returns what the slot held before, an empty slot being reported as
  \<^verbatim>\<open>LC_GLOBAL_LOCALE\<close>. With the null pointer it returns the same value and leaves the
  state unchanged. On a thread that has made no call of \<open>uselocale\<close> with a non-null
  argument, whatever else has been called, the query returns \<^verbatim>\<open>LC_GLOBAL_LOCALE\<close>.
\<close>

theorem uselocale_binding:
  "(new_locale \<noteq> NULL \<longrightarrow>
      uselocale s t new_locale =
        (if tls_locale s t = NULL then LC_GLOBAL_LOCALE else tls_locale s t,
         s\<lparr>tls_locale := (tls_locale s)(t := new_locale)\<rparr>)) \<and>
   uselocale s t NULL =
     (if tls_locale s t = NULL then LC_GLOBAL_LOCALE else tls_locale s t, s) \<and>
   (api_run h init_state calls = Some s \<longrightarrow>
    (\<forall>l. Uselocale t l \<in> set calls \<longrightarrow> l = NULL) \<longrightarrow>
      uselocale s t NULL = (LC_GLOBAL_LOCALE, s))"
proof (intro conjI impI)
  assume "api_run h init_state calls = Some s"
    and "\<forall>l. Uselocale t l \<in> set calls \<longrightarrow> l = NULL"
  then have "tls_locale s t = tls_locale init_state t"
    by (rule api_run_tls_other)
  then show "uselocale s t NULL = (LC_GLOBAL_LOCALE, s)"
    by (simp add: uselocale_def Let_def init_state_def)
qed (simp_all add: uselocale_def Let_def)

text \<open>
  The theorem for thread 0 after thread 0 has queried and thread 1 has installed
  \<^verbatim>\<open>LC_GLOBAL_LOCALE\<close>: the query of thread 0 returns \<^verbatim>\<open>LC_GLOBAL_LOCALE\<close>, and so does
  its first installing call.
\<close>

theorem uselocale_binding_witness:
  "LC_GLOBAL_LOCALE \<noteq> NULL \<and>
   api_run bionic_headers init_state [Uselocale 0 NULL, Uselocale 1 LC_GLOBAL_LOCALE] =
     Some (init_state\<lparr>tls_locale := (tls_locale init_state)(1 := LC_GLOBAL_LOCALE)\<rparr>) \<and>
   uselocale (init_state\<lparr>tls_locale := (tls_locale init_state)(1 := LC_GLOBAL_LOCALE)\<rparr>) 0 NULL =
     (LC_GLOBAL_LOCALE, init_state\<lparr>tls_locale := (tls_locale init_state)(1 := LC_GLOBAL_LOCALE)\<rparr>) \<and>
   uselocale (init_state\<lparr>tls_locale := (tls_locale init_state)(1 := LC_GLOBAL_LOCALE)\<rparr>) 0
       LC_GLOBAL_LOCALE =
     (LC_GLOBAL_LOCALE,
      init_state\<lparr>tls_locale := (tls_locale init_state)(1 := LC_GLOBAL_LOCALE, 0 := LC_GLOBAL_LOCALE)\<rparr>)"
proof -
  let ?s = "init_state\<lparr>tls_locale := (tls_locale init_state)(1 := LC_GLOBAL_LOCALE)\<rparr>"
  let ?calls = "[Uselocale 0 NULL, Uselocale 1 LC_GLOBAL_LOCALE]"
  have r: "api_run bionic_headers init_state ?calls = Some ?s"
    by (simp add: uselocale_snd is_handle_def)
  have q: "\<forall>l. Uselocale 0 l \<in> set ?calls \<longrightarrow> l = NULL"
    by simp
  have t: "tls_locale ?s 0 = NULL"
    by (simp add: init_state_def)
  from uselocale_binding [of LC_GLOBAL_LOCALE ?s 0 bionic_headers ?calls] r q t
  show ?thesis by simp
qed

text \<open>
  Claim C9. In every state reached from the initial state by calls of \<open>setlocale\<close>,
  \<open>newlocale\<close>, \<open>duplocale\<close>, \<open>uselocale\<close> and \<open>localeconv\<close>, on every thread
  \<open>ctype_get_mb_cur_max\<close> returns a width, 1 or 4, and leaves the state unchanged; every
  allocated object has width 1 or 4; and every further sequence of calls leaves every
  allocated object as it is.
\<close>

theorem mb_cur_max_1_or_4:
  assumes "api_run h init_state calls = Some s"
  shows "(\<exists>w. ctype_get_mb_cur_max s t = Some (w, s) \<and> (w = 1 \<or> w = 4)) \<and>
         (\<forall>obj \<in> set (heap s). mb_cur_max obj = 1 \<or> mb_cur_max obj = 4) \<and>
         (\<forall>calls' s' a. api_run h s calls' = Some s' \<longrightarrow> a < length (heap s) \<longrightarrow>
            deref s' (Ptr a) = Some (heap s ! a))"
proof (intro conjI allI impI)
  from init_state_ok(1) assms have h: "heap_ok s"
    by (rule api_run_heap_ok)
  from init_state_ok(2) assms have "tls_ok s"
    by (rule api_run_tls_ok)
  then have slot: "tls_locale s t = NULL \<or> is_handle s (tls_locale s t)"
    by (simp add: tls_ok_def)
  show "\<exists>w. ctype_get_mb_cur_max s t = Some (w, s) \<and> (w = 1 \<or> w = 4)"
  proof (cases "tls_locale s t")
    case (Ptr a)
    with slot have a: "a < length (heap s)"
      by (simp add: is_handle_def)
    with h have "mb_cur_max (heap s ! a) = 1 \<or> mb_cur_max (heap s ! a) = 4"
      by (simp add: heap_ok_def)
    with ctype_get_mb_cur_max_ptr [OF Ptr a] show ?thesis by simp
  next
    case NULL
    then show ?thesis by (simp add: ctype_get_mb_cur_max_global)
  next
    case LC_GLOBAL_LOCALE
    then show ?thesis by (simp add: ctype_get_mb_cur_max_global)
  qed
  from h show "\<forall>obj \<in> set (heap s). mb_cur_max obj = 1 \<or> mb_cur_max obj = 4"
    by (simp add: heap_ok_def)
next
  fix calls' s' a
  assume r: "api_run h s calls' = Some s'" and a: "a < length (heap s)"
  from api_run_heap_ext [OF r] obtain objs where "heap s' = heap s @ objs" ..
  from deref_heap_ext [OF a this] a show "deref s' (Ptr a) = Some (heap s ! a)"
    by (simp add: deref_def)
qed

text \<open>
  The theorem after \<^verbatim>\<open>setlocale(LC_ALL, "C")\<close>, \<^verbatim>\<open>duplocale(LC_GLOBAL_LOCALE)\<close>,
  \<^verbatim>\<open>uselocale\<close> of the copy on thread 0 and \<^verbatim>\<open>setlocale(LC_ALL, "en_US.UTF-8")\<close>: the
  width is 1 on thread 0 and 4 on thread 1, and a later \<open>newlocale\<close> leaves the first
  object as it is.
\<close>

theorem mb_cur_max_1_or_4_witness:
  "api_run bionic_headers init_state
     [Setlocale 0 6 (Some ''C''), Duplocale LC_GLOBAL_LOCALE, Uselocale 0 (Ptr 0),
      Setlocale 1 6 (Some ''en_US.UTF-8'')] =
     Some (init_state\<lparr>heap := [\<lparr>mb_cur_max = 1\<rparr>],
                      tls_locale := (tls_locale init_state)(0 := Ptr 0)\<rparr>) \<and>
   ctype_get_mb_cur_max
     (init_state\<lparr>heap := [\<lparr>mb_cur_max = 1\<rparr>],
                 tls_locale := (tls_locale init_state)(0 := Ptr 0)\<rparr>) 0 =
     Some (1, init_state\<lparr>heap := [\<lparr>mb_cur_max = 1\<rparr>],
                         tls_locale := (tls_locale init_state)(0 := Ptr 0)\<rparr>) \<and>
   ctype_get_mb_cur_max
     (init_state\<lparr>heap := [\<lparr>mb_cur_max = 1\<rparr>],
                 tls_locale := (tls_locale init_state)(0 := Ptr 0)\<rparr>) 1 =
     Some (4, init_state\<lparr>heap := [\<lparr>mb_cur_max = 1\<rparr>],
                         tls_locale := (tls_locale init_state)(0 := Ptr 0)\<rparr>) \<and>
   api_run bionic_headers
     (init_state\<lparr>heap := [\<lparr>mb_cur_max = 1\<rparr>],
                 tls_locale := (tls_locale init_state)(0 := Ptr 0)\<rparr>)
     [Newlocale 1 0 (Some ''C.UTF-8'') NULL] =
     Some (init_state\<lparr>heap := [\<lparr>mb_cur_max = 1\<rparr>, \<lparr>mb_cur_max = 4\<rparr>],
                      tls_locale := (tls_locale init_state)(0 := Ptr 0)\<rparr>) \<and>
   deref (init_state\<lparr>heap := [\<lparr>mb_cur_max = 1\<rparr>, \<lparr>mb_cur_max = 4\<rparr>],
                     tls_locale := (tls_locale init_state)(0 := Ptr 0)\<rparr>) (Ptr 0) =
     Some \<lparr>mb_cur_max = 1\<rparr>"
proof -
  let ?calls = "[Setlocale 0 6 (Some ''C''), Duplocale LC_GLOBAL_LOCALE, Uselocale 0 (Ptr 0),
      Setlocale 1 6 (Some ''en_US.UTF-8'')]"
  let ?s = "init_state\<lparr>heap := [\<lparr>mb_cur_max = 1\<rparr>],
                       tls_locale := (tls_locale init_state)(0 := Ptr 0)\<rparr>"
  let ?s' = "init_state\<lparr>heap := [\<lparr>mb_cur_max = 1\<rparr>, \<lparr>mb_cur_max = 4\<rparr>],
                       tls_locale := (tls_locale init_state)(0 := Ptr 0)\<rparr>"
  have r: "api_run bionic_headers init_state ?calls = Some ?s"
    by (simp add: setlocale_def bionic_headers_def is_supported_locale_def is_utf8_locale_def
        init_state_def is_handle_def duplocale_def locale_of_other_def new_locale_obj_def
        uselocale_snd)
  have r': "api_run bionic_headers ?s [Newlocale 1 0 (Some ''C.UTF-8'') NULL] = Some ?s'"
    by (simp add: newlocale_def bionic_headers_def is_supported_locale_def is_utf8_locale_def
        new_locale_obj_def locale_of_width_def)
  have f: "bionic_current_locale_is_utf8 ?s" "heap ?s = [\<lparr>mb_cur_max = 1\<rparr>]"
    "tls_locale ?s 0 = Ptr 0" "tls_locale ?s 1 = NULL"
    by (simp_all add: init_state_def)
  from mb_cur_max_1_or_4 [OF r, of 0]
  obtain w where w: "ctype_get_mb_cur_max ?s 0 = Some (w, ?s)"
    and d: "\<forall>calls' s' a. api_run bionic_headers ?s calls' = Some s' \<longrightarrow> a < length (heap ?s) \<longrightarrow>
              deref s' (Ptr a) = Some (heap ?s ! a)"
    and b: "\<forall>obj \<in> set (heap ?s). mb_cur_max obj = 1 \<or> mb_cur_max obj = 4"
    by blast
  from w f have 0: "ctype_get_mb_cur_max ?s 0 = Some (1, ?s)"
    by (simp add: ctype_get_mb_cur_max_ptr)
  from mb_cur_max_1_or_4 [OF r, of 1]
  obtain v where v: "ctype_get_mb_cur_max ?s 1 = Some (v, ?s)"
    by blast
  with f have 1: "ctype_get_mb_cur_max ?s 1 = Some (4, ?s)"
    by (simp add: ctype_get_mb_cur_max_global)
  from d r' have "0 < length (heap ?s) \<longrightarrow> deref ?s' (Ptr 0) = Some (heap ?s ! 0)"
    by blast
  with f have 2: "deref ?s' (Ptr 0) = Some \<lparr>mb_cur_max = 1\<rparr>"
    by simp
  from r 0 1 b f r' 2 show ?thesis by simp
qed

section \<open>The format table\<close>

text \<open>
  Claim C8. In every state reached from the initial state by calls of the interface,
  whatever the flag is, \<open>localeconv\<close> returns the table with \<open>decimal_point\<close> equal to
  \<open>''.''\<close>, every other string field equal to the empty string and every numeric field
  equal to \<^verbatim>\<open>CHAR_MAX\<close>; a second call returns the same table.
\<close>

theorem localeconv_table:
  assumes "api_run h init_state calls = Some s"
  shows "fst (localeconv h s) =
     \<lparr>decimal_point = Some ''.'', thousands_sep = Some '''', grouping = Some '''',
      int_curr_symbol = Some '''', currency_symbol = Some '''', mon_decimal_point = Some '''',
      mon_thousands_sep = Some '''', mon_grouping = Some '''', positive_sign = Some '''',
      negative_sign = Some '''',
      int_frac_digits = CHAR_MAX h, frac_digits = CHAR_MAX h, p_cs_precedes = CHAR_MAX h,
      p_sep_by_space = CHAR_MAX h, n_cs_precedes = CHAR_MAX h, n_sep_by_space = CHAR_MAX h,
      p_sign_posn = CHAR_MAX h, n_sign_posn = CHAR_MAX h, int_p_cs_precedes = CHAR_MAX h,
      int_p_sep_by_space = CHAR_MAX h, int_n_cs_precedes = CHAR_MAX h,
      int_n_sep_by_space = CHAR_MAX h, int_p_sign_posn = CHAR_MAX h,
      int_n_sign_posn = CHAR_MAX h\<rparr> \<and>
    fst (localeconv h (snd (localeconv h s))) = fst (localeconv h s)"
proof -
  from init_state_ok(3) assms have "table_ok h s"
    by (rule api_run_table_ok)
  from localeconv_table_ok [OF this] show ?thesis
    by (simp only: locale_init_table simp_thms)
qed

text \<open>
  The theorem after \<^verbatim>\<open>setlocale(LC_ALL, "C")\<close> and a first call of \<open>localeconv\<close>.
\<close>

theorem localeconv_table_witness:
  "api_run bionic_headers init_state [Setlocale 0 6 (Some ''C''), Localeconv] =
     Some (snd (localeconv bionic_headers (init_state\<lparr>bionic_current_locale_is_utf8 := False\<rparr>))) \<and>
   decimal_point (fst (localeconv bionic_headers
     (snd (localeconv bionic_headers (init_state\<lparr>bionic_current_locale_is_utf8 := False\<rparr>))))) =
     Some ''.'' \<and>
   thousands_sep (fst (localeconv bionic_headers
     (snd (localeconv bionic_headers (init_state\<lparr>bionic_current_locale_is_utf8 := False\<rparr>))))) =
     Some '''' \<and>
   frac_digits (fst (localeconv bionic_headers
     (snd (localeconv bionic_headers (init_state\<lparr>bionic_current_locale_is_utf8 := False\<rparr>))))) =
     127"
proof -
  let ?s = "snd (localeconv bionic_headers (init_state\<lparr>bionic_current_locale_is_utf8 := False\<rparr>))"
  have r: "api_run bionic_headers init_state [Setlocale 0 6 (Some ''C''), Localeconv] = Some ?s"
    by (simp add: setlocale_def bionic_headers_def is_supported_locale_def is_utf8_locale_def
        init_state_def)
  have c: "CHAR_MAX bionic_headers = 127"
    by (simp add: bionic_headers_def)
  from localeconv_table [OF r] r c show ?thesis by simp
qed

end
